theory Spec2Isabelle
  imports Complex_Main "HOL-Library.Sublist"
begin

section \<open>Strings\<close>

text \<open>
  The strings that reach the search engine are ASCII: command-line patterns that passed
  the hexadecimal check and the provider's addresses (\<open>0x\<close> followed by forty
  hexadecimal digits, in mixed case). They are modelled as \<open>string\<close>.

  \<open>String.prototype.toLowerCase\<close> maps \<open>A\<close>..\<open>Z\<close> to \<open>a\<close>..\<open>z\<close> and
  leaves every other ASCII character alone.
\<close>

definition toLowerChar :: "char \<Rightarrow> char" where
  "toLowerChar c =
     (case map_of (zip ''ABCDEFGHIJKLMNOPQRSTUVWXYZ'' ''abcdefghijklmnopqrstuvwxyz'') c of
        None \<Rightarrow> c
      | Some d \<Rightarrow> d)"

definition toLowerCase :: "string \<Rightarrow> string" where
  "toLowerCase s = map toLowerChar s"

text \<open>
  \<open>s.startsWith(q)\<close>: false when \<open>q\<close> is longer than \<open>s\<close>, otherwise the
  comparison of \<open>q\<close> with the substring of \<open>s\<close> of the same length at position 0.
  \<open>s.endsWith(q)\<close>: the start position is \<open>s.length - q.length\<close>; false when that
  is negative, otherwise the comparison of \<open>q\<close> with the substring from there to the end.
\<close>

definition startsWith :: "string \<Rightarrow> string \<Rightarrow> bool" where
  "startsWith s q = (if length s < length q then False else take (length q) s = q)"

definition endsWith :: "string \<Rightarrow> string \<Rightarrow> bool" where
  "endsWith s q =
     (if length s < length q then False else drop (length s - length q) s = q)"

section \<open>Key generation worker\<close>

text \<open>
  \<open>workerData\<close> as the main thread passes it to each worker (\<open>prefix\<close>, \<open>suffix\<close>,
  \<open>isCaseSensitive\<close>); the two pattern fields carry a suffix in their names because
  \<open>prefix\<close> and \<open>suffix\<close> are list predicates of the library.
\<close>

record workerData =
  prefix_pat :: string
  suffix_pat :: string
  isCaseSensitive :: bool

text \<open>
  One iteration asks the provider for a key and its account:
  \<open>pk = generatePrivateKey()\<close>, \<open>account = privateKeyToAccount(pk)\<close>.
  The provider is opaque; what an iteration receives from it is the pair below.
\<close>

record keypair =
  pk :: string
  address :: string

text \<open>The two messages a worker posts to its parent.\<close>

datatype message =
    Found string string nat  \<comment> \<open>\<open>{type: 'found', address, pk, attempts}\<close>\<close>
  | Tick nat                 \<comment> \<open>\<open>{type: 'tick', count}\<close>\<close>

definition BATCH_SIZE :: nat where
  "BATCH_SIZE = 2000"

text \<open>\<open>addr = isCaseSensitive ? account.address : account.address.toLowerCase()\<close>\<close>

definition addr_of :: "workerData \<Rightarrow> string \<Rightarrow> string" where
  "addr_of wd a = (if isCaseSensitive wd then a else toLowerCase a)"

text \<open>
  \<open>isPrefixMatch = !prefix || addr.startsWith('0x' + prefix)\<close> and
  \<open>isSuffixMatch = !suffix || addr.endsWith(suffix)\<close>; a string is falsy exactly when
  it is empty.
\<close>

definition isPrefixMatch :: "workerData \<Rightarrow> string \<Rightarrow> bool" where
  "isPrefixMatch wd addr = (prefix_pat wd = [] \<or> startsWith addr (''0x'' @ prefix_pat wd))"

definition isSuffixMatch :: "workerData \<Rightarrow> string \<Rightarrow> bool" where
  "isSuffixMatch wd addr = (suffix_pat wd = [] \<or> endsWith addr (suffix_pat wd))"

text \<open>The condition of the \<open>if\<close> that posts the \<open>found\<close> message, for an account address.\<close>

definition is_match :: "workerData \<Rightarrow> string \<Rightarrow> bool" where
  "is_match wd a = (isPrefixMatch wd (addr_of wd a) \<and> isSuffixMatch wd (addr_of wd a))"

text \<open>
  The body of the \<open>while (true)\<close> loop: from the local counter and the provider's pair to
  the messages posted, in order, and the counter at the end of the iteration. The two
  \<open>if\<close> statements are independent, as in the source: the second is not an \<open>else\<close>
  of the first, and the first neither resets the counter nor leaves the loop.
\<close>

definition worker_iteration :: "workerData \<Rightarrow> nat \<Rightarrow> keypair \<Rightarrow> message list \<times> nat" where
  "worker_iteration wd localCount account =
     (let addr = addr_of wd (address account);
          localCount1 = localCount + 1;
          posted1 = (if isPrefixMatch wd addr \<and> isSuffixMatch wd addr
                     then [Found (address account) (pk account) localCount1] else [])
      in if localCount1 mod BATCH_SIZE = 0
         then (posted1 @ [Tick BATCH_SIZE], 0)
         else (posted1, localCount1))"

text \<open>
  The loop never returns. Its behaviour is the sequence of messages it posts, so the model
  runs it over a finite run of provider results (one per iteration) and returns what
  has been posted so far with the counter reached; a longer run extends the
  messages (\<open>worker_loop_append\<close>).
\<close>

fun worker_loop :: "workerData \<Rightarrow> nat \<Rightarrow> keypair list \<Rightarrow> message list \<times> nat" where
  "worker_loop wd localCount [] = ([], localCount)"
| "worker_loop wd localCount (account # rest) =
     (let (posted, localCount1) = worker_iteration wd localCount account;
          (posted_rest, localCount2) = worker_loop wd localCount1 rest
      in (posted @ posted_rest, localCount2))"

text \<open>The worker starts with \<open>localCount = 0\<close>.\<close>

definition worker :: "workerData \<Rightarrow> keypair list \<Rightarrow> message list" where
  "worker wd accounts = fst (worker_loop wd 0 accounts)"

text \<open>
  The match decision as the specification words it, with the library's notions of a list
  being a prefix and a suffix of another.
\<close>

definition spec_match :: "workerData \<Rightarrow> string \<Rightarrow> bool" where
  "spec_match wd normalized =
     ((prefix_pat wd = [] \<or> prefix (''0x'' @ prefix_pat wd) normalized) \<and>
      (suffix_pat wd = [] \<or> suffix (suffix_pat wd) normalized))"

section \<open>Numbers\<close>

text \<open>
  A JavaScript Number is a finite value, one of the two infinities, or NaN. Finite
  arithmetic is modelled by exact real arithmetic: rounding to the nearest double is not
  part of the model, and the sign of zero is not either (every zero divisor of the
  program is the \<open>+0\<close> of a subtraction \<open>x - x\<close>). The non-finite results are
  modelled as the language defines them.
\<close>

datatype number = Finite real | PosInfinity | NegInfinity | NaN

fun num_div :: "number \<Rightarrow> number \<Rightarrow> number" where
  "num_div (Finite a) (Finite b) =
     (if b = 0 then (if 0 < a then PosInfinity else if a < 0 then NegInfinity else NaN)
      else Finite (a / b))"
| "num_div (Finite a) PosInfinity = Finite 0"
| "num_div (Finite a) NegInfinity = Finite 0"
| "num_div PosInfinity (Finite b) = (if 0 \<le> b then PosInfinity else NegInfinity)"
| "num_div NegInfinity (Finite b) = (if 0 \<le> b then NegInfinity else PosInfinity)"
| "num_div _ _ = NaN"

fun num_sub :: "number \<Rightarrow> number \<Rightarrow> number" where
  "num_sub (Finite a) (Finite b) = Finite (a - b)"
| "num_sub (Finite a) PosInfinity = NegInfinity"
| "num_sub (Finite a) NegInfinity = PosInfinity"
| "num_sub PosInfinity (Finite b) = PosInfinity"
| "num_sub PosInfinity NegInfinity = PosInfinity"
| "num_sub NegInfinity (Finite b) = NegInfinity"
| "num_sub NegInfinity NegInfinity = NaN"
| "num_sub NegInfinity PosInfinity = NegInfinity"
| "num_sub _ _ = NaN"

fun num_mul :: "number \<Rightarrow> number \<Rightarrow> number" where
  "num_mul (Finite a) (Finite b) = Finite (a * b)"
| "num_mul (Finite a) PosInfinity =
     (if a = 0 then NaN else if 0 < a then PosInfinity else NegInfinity)"
| "num_mul (Finite a) NegInfinity =
     (if a = 0 then NaN else if 0 < a then NegInfinity else PosInfinity)"
| "num_mul PosInfinity (Finite b) =
     (if b = 0 then NaN else if 0 < b then PosInfinity else NegInfinity)"
| "num_mul NegInfinity (Finite b) =
     (if b = 0 then NaN else if 0 < b then NegInfinity else PosInfinity)"
| "num_mul PosInfinity PosInfinity = PosInfinity"
| "num_mul PosInfinity NegInfinity = NegInfinity"
| "num_mul NegInfinity PosInfinity = NegInfinity"
| "num_mul NegInfinity NegInfinity = PosInfinity"
| "num_mul _ _ = NaN"

text \<open>\<open>x > y\<close>: false whenever an operand is NaN.\<close>

fun num_gt :: "number \<Rightarrow> number \<Rightarrow> bool" where
  "num_gt (Finite a) (Finite b) = (b < a)"
| "num_gt PosInfinity (Finite b) = True"
| "num_gt PosInfinity NegInfinity = True"
| "num_gt (Finite a) NegInfinity = True"
| "num_gt _ _ = False"

fun Math_exp :: "number \<Rightarrow> number" where
  "Math_exp (Finite x) = Finite (exp x)"
| "Math_exp PosInfinity = PosInfinity"
| "Math_exp NegInfinity = Finite 0"
| "Math_exp NaN = NaN"

text \<open>
  \<open>Math.pow(16, n)\<close> for a string length \<open>n\<close>: the power is a double up to
  \<open>16^255 = 2^1020\<close> and overflows to \<open>Infinity\<close> from \<open>16^256 = 2^1024\<close> on.
\<close>

definition Math_pow16 :: "nat \<Rightarrow> number" where
  "Math_pow16 n = (if n < 256 then Finite (16 ^ n) else PosInfinity)"

section \<open>Pattern construction on the main thread\<close>

text \<open>
  The fields of \<open>parseArgs()\<close>'s result that the search reads (\<open>isAutoThreads\<close> only
  changes the banner). \<open>prefix\<close> and \<open>suffix\<close> are the raw option values.
\<close>

record config =
  prefix_opt :: string
  suffix_opt :: string
  caseSensitive :: bool
  threads :: nat
  showHelp :: bool

datatype ValidationError = Empty | InvalidHex

text \<open>
  \<open>/^[0-9a-fA-F]+$/.test(s)\<close>: without the \<open>m\<close> flag the anchors are the two ends of
  the input, so the test holds exactly for a non-empty string of hexadecimal digits.
\<close>

definition is_hex_char :: "char \<Rightarrow> bool" where
  "is_hex_char c = (c \<in> set ''0123456789abcdefABCDEF'')"

definition hex_test :: "string \<Rightarrow> bool" where
  "hex_test s = (s \<noteq> [] \<and> list_all is_hex_char s)"

text \<open>What the main thread derives from a pattern that passed both checks.\<close>

record patternSpec =
  cleanPrefix :: string
  targetSuffix :: string
  totalHexChars :: nat
  difficulty :: number

text \<open>
  The checks and the normalisation, in the order of the source: the empty test and the
  hexadecimal test on \<open>fullPattern = config.prefix + config.suffix\<close> (each ends the
  process with status 1), then the case folding, then the removal of a leading
  \<open>0x\<close> from the prefix.
\<close>

definition build :: "config \<Rightarrow> ValidationError + patternSpec" where
  "build cfg =
     (let fullPattern = prefix_opt cfg @ suffix_opt cfg
      in if fullPattern = [] then Inl Empty
         else if \<not> hex_test fullPattern then Inl InvalidHex
         else
           (let targetPrefix =
                  (if caseSensitive cfg then prefix_opt cfg else toLowerCase (prefix_opt cfg));
                tSuffix =
                  (if caseSensitive cfg then suffix_opt cfg else toLowerCase (suffix_opt cfg));
                cPrefix =
                  (if startsWith targetPrefix ''0x'' then drop 2 targetPrefix else targetPrefix);
                n = length cPrefix + length tSuffix
            in Inr \<lparr>cleanPrefix = cPrefix, targetSuffix = tSuffix,
                    totalHexChars = n, difficulty = Math_pow16 n\<rparr>))"

text \<open>
  How the main thread starts: the help text and status 0, a validation error and status 1,
  or \<open>config.threads\<close> workers, each with the same \<open>workerData\<close>.
\<close>

datatype startup =
    HelpExit
  | ErrorExit ValidationError
  | Searching patternSpec "workerData list"

definition main_thread :: "config \<Rightarrow> startup" where
  "main_thread cfg =
     (if showHelp cfg then HelpExit
      else case build cfg of
             Inl e \<Rightarrow> ErrorExit e
           | Inr spec \<Rightarrow>
               Searching spec
                 (replicate (threads cfg)
                    \<lparr>prefix_pat = cleanPrefix spec, suffix_pat = targetSuffix spec,
                     isCaseSensitive = caseSensitive cfg\<rparr>))"

fun workers_started :: "startup \<Rightarrow> workerData list" where
  "workers_started (Searching spec ws) = ws"
| "workers_started _ = []"

section \<open>Statistics\<close>

text \<open>
  \<open>elapsed = (now - startTime) / 1000\<close> and \<open>speed = totalCount / elapsed\<close>, with
  \<open>now\<close> and \<open>startTime\<close> two readings of \<open>Date.now()\<close> (whole milliseconds).
\<close>

definition speed_of :: "nat \<Rightarrow> int \<Rightarrow> int \<Rightarrow> number" where
  "speed_of totalCount now startTime =
     (let elapsed = num_div (Finite (of_int (now - startTime))) (Finite 1000)
      in num_div (Finite (of_nat totalCount)) elapsed)"

text \<open>
  \<open>prob = 1 - Math.exp(-totalCount / difficulty); if (prob > 0.9999) prob = 0.9999\<close>
\<close>

definition probability :: "nat \<Rightarrow> number \<Rightarrow> number" where
  "probability totalCount d =
     (let prob = num_sub (Finite 1) (Math_exp (num_div (Finite (- of_nat totalCount)) d))
      in if num_gt prob (Finite 0.9999) then Finite 0.9999 else prob)"

text \<open>
  The text of the progress line for that value:
  \<open>probStr = prob > 0.999 ? '>99.99%' : (prob * 100).toFixed(2) + '%'\<close>.
  \<open>Number.prototype.toFixed\<close> belongs to the language, not to the program; it is a
  parameter here (the number and the count of decimals to its string).
\<close>

definition probStr :: "(number \<Rightarrow> nat \<Rightarrow> string) \<Rightarrow> number \<Rightarrow> string" where
  "probStr toFixed prob =
     (if num_gt prob (Finite 0.999) then ''>99.99%''
      else toFixed (num_mul prob (Finite 100)) 2 @ ''%'')"

section \<open>Search coordinator\<close>

text \<open>
  The state shared by the message handlers of all workers (\<open>totalCount\<close>, \<open>lastLog\<close>),
  and the constants they close over. Standard output is taken to be a terminal, so
  that the drawing calls of the handlers return.
\<close>

record searchState =
  totalCount :: nat
  lastLog :: int

record searchEnv =
  startTime :: int
  env_difficulty :: number

text \<open>
  What a handler hands to the terminal: a progress line (speed, keys scanned,
  probability) or the success box (address, private key, seconds spent, keys scanned).
\<close>

datatype rendered =
    Progress number nat number
  | Success string string number nat

text \<open>The \<open>tick\<close> branch; \<open>now\<close> is the handler's reading of \<open>Date.now()\<close>.\<close>

definition on_tick :: "searchEnv \<Rightarrow> searchState \<Rightarrow> int \<Rightarrow> nat \<Rightarrow> rendered list \<times> searchState" where
  "on_tick env st now count =
     (let total = totalCount st + count
      in if now - lastLog st > 100
         then ([Progress (speed_of total now (startTime env)) total
                  (probability total (env_difficulty env))],
               \<lparr>totalCount = total, lastLog = now\<rparr>)
         else ([], st\<lparr>totalCount := total\<rparr>))"

text \<open>
  The \<open>found\<close> branch prints the success box, terminates every worker and calls
  \<open>process.exit(0)\<close>.
\<close>

definition on_found :: "searchEnv \<Rightarrow> searchState \<Rightarrow> int \<Rightarrow> string \<Rightarrow> string \<Rightarrow> nat \<Rightarrow> rendered" where
  "on_found env st now a k attempts =
     Success a k (num_div (Finite (of_int (now - startTime env))) (Finite 1000))
       (totalCount st + attempts)"

text \<open>
  The main thread handles the messages of all workers one at a time, in the order its
  event loop delivers them; each is paired here with the clock reading of its handler.
  The process ends inside the first \<open>found\<close> handler, so no handler runs for a message
  delivered after it: \<open>Exited\<close> is returned without looking at the rest. Without a
  \<open>found\<close> message the coordinator is still waiting, in the state \<open>Waiting st\<close>.
\<close>

datatype status = Waiting searchState | Exited

fun coordinator :: "searchEnv \<Rightarrow> searchState \<Rightarrow> (int \<times> message) list \<Rightarrow> rendered list \<times> status" where
  "coordinator env st [] = ([], Waiting st)"
| "coordinator env st ((now, Tick count) # rest) =
     (let (out, st1) = on_tick env st now count;
          (outs, fin) = coordinator env st1 rest
      in (out @ outs, fin))"
| "coordinator env st ((now, Found a k attempts) # rest) =
     ([on_found env st now a k attempts], Exited)"

fun is_Success :: "rendered \<Rightarrow> bool" where
  "is_Success (Success a k t n) = True"
| "is_Success (Progress s n p) = False"

fun is_Found :: "message \<Rightarrow> bool" where
  "is_Found (Found a k n) = True"
| "is_Found (Tick c) = False"

text \<open>\<open>totalCount = 0\<close> and \<open>lastLog = 0\<close> when the workers are created.\<close>

definition initial_state :: searchState where
  "initial_state = \<lparr>totalCount = 0, lastLog = 0\<rparr>"

text \<open>The address and key of a \<open>found\<close> message; a tick reports none.\<close>

fun reported :: "message \<Rightarrow> (string \<times> string) list" where
  "reported (Found a k n) = [(a, k)]"
| "reported (Tick c) = []"

section \<open>Example inputs\<close>

text \<open>
  A case-insensitive search for the prefix \<open>ab\<close>, one provider result that misses and
  two that match: 32-byte keys and 20-byte addresses in the provider's mixed case.
\<close>

definition wd_ab :: workerData where
  "wd_ab = \<lparr>prefix_pat = ''ab'', suffix_pat = [], isCaseSensitive = False\<rparr>"

definition kp_miss :: keypair where
  "kp_miss =
     \<lparr>pk = ''0x4c0883a69102937d6231471b5dbb6204fe5129617082792ae468d01a3f362318'',
      address = ''0x12Cd4Ef89a0B1c2D3e4F5a6B7c8D9e0F1a2B3c4D''\<rparr>"

definition kp_hit :: keypair where
  "kp_hit =
     \<lparr>pk = ''0x8da4ef21b864d2cc526dbdb2a120bd2874c36c9d0a1fb7f8c63d7f7a8b41de8f'',
      address = ''0xAb5801a7D398351b8bE11C439e05C5B3259aeC9B''\<rparr>"

definition kp_hit2 :: keypair where
  "kp_hit2 =
     \<lparr>pk = ''0x1ab42cc412b618bdea3a599e3c9bae199ebf030895b039e9db1e30dafb12b727'',
      address = ''0xaB7C8803962c0f2F5BBBe3FA8bf41cd82AA1923C''\<rparr>"

text \<open>
  Command lines: \<open>-p 0xcafe\<close>, \<open>-p cafe\<close>, \<open>-p ab -s 9g -c\<close> and \<open>-c\<close> alone.
\<close>

definition cfg_0xcafe :: config where
  "cfg_0xcafe = \<lparr>prefix_opt = ''0xcafe'', suffix_opt = [], caseSensitive = False,
                  threads = 4, showHelp = False\<rparr>"

definition cfg_cafe :: config where
  "cfg_cafe = \<lparr>prefix_opt = ''cafe'', suffix_opt = [], caseSensitive = False,
                threads = 4, showHelp = False\<rparr>"

definition cfg_bad_suffix :: config where
  "cfg_bad_suffix = \<lparr>prefix_opt = ''ab'', suffix_opt = ''9g'', caseSensitive = True,
                      threads = 2, showHelp = False\<rparr>"

definition cfg_empty :: config where
  "cfg_empty = \<lparr>prefix_opt = [], suffix_opt = [], caseSensitive = True,
                 threads = 2, showHelp = False\<rparr>"

text \<open>A search for two hexadecimal digits that started at clock reading 1700000000000.\<close>

definition env_demo :: searchEnv where
  "env_demo = \<lparr>startTime = 1700000000000, env_difficulty = Math_pow16 2\<rparr>"

section \<open>The match predicate\<close>

lemma startsWith_prefix: "startsWith s q \<longleftrightarrow> prefix q s"
proof
  assume "startsWith s q"
  then have "take (length q) s = q"
    by (simp add: startsWith_def split: if_splits)
  then show "prefix q s"
    by (metis take_is_prefix)
next
  assume "prefix q s"
  then obtain r where "s = q @ r"
    by (auto simp: prefix_def)
  then show "startsWith s q"
    by (simp add: startsWith_def)
qed

lemma endsWith_suffix: "endsWith s q \<longleftrightarrow> suffix q s"
proof
  assume "endsWith s q"
  then have "drop (length s - length q) s = q"
    by (simp add: endsWith_def split: if_splits)
  then show "suffix q s"
    by (metis suffix_drop)
next
  assume "suffix q s"
  then obtain r where "s = r @ q"
    by (auto simp: suffix_def)
  then show "endsWith s q"
    by (simp add: endsWith_def)
qed

text \<open>
  C3. For every address and every pattern, the worker's match decision is the conjunction
  of: the prefix is empty or the normalized address starts with \<open>0x\<close> followed by the
  stored prefix, and the suffix is empty or the normalized address ends with the stored
  suffix. The decision is the one that guards the \<open>found\<close> message of an iteration.
\<close>

theorem match_decision:
  "is_match wd a = spec_match wd (addr_of wd a) \<and>
   (fst (worker_iteration wd localCount \<lparr>pk = k, address = a\<rparr>) \<noteq> []
      \<and> hd (fst (worker_iteration wd localCount \<lparr>pk = k, address = a\<rparr>))
          = Found a k (localCount + 1))
     = spec_match wd (addr_of wd a)"
proof -
  have m: "is_match wd a = spec_match wd (addr_of wd a)"
    by (simp add: is_match_def spec_match_def isPrefixMatch_def isSuffixMatch_def
        startsWith_prefix endsWith_suffix)
  have "(fst (worker_iteration wd localCount \<lparr>pk = k, address = a\<rparr>) \<noteq> []
      \<and> hd (fst (worker_iteration wd localCount \<lparr>pk = k, address = a\<rparr>))
          = Found a k (localCount + 1)) = is_match wd a"
    by (simp add: worker_iteration_def is_match_def Let_def)
  with m show ?thesis
    by simp
qed

lemma kp_miss_no_match: "\<not> is_match wd_ab (address kp_miss)"
  by code_simp

lemma kp_hit_match: "is_match wd_ab (address kp_hit)"
  by code_simp

lemma kp_hit2_match: "is_match wd_ab (address kp_hit2)"
  by code_simp

section \<open>The worker loop\<close>

lemma worker_loop_append:
  "worker_loop wd c (xs @ ys) =
     (let (m1, c1) = worker_loop wd c xs; (m2, c2) = worker_loop wd c1 ys in (m1 @ m2, c2))"
  by (induction xs arbitrary: c) (auto simp: Let_def split: prod.splits)

lemma worker_iteration_no_match:
  assumes "\<not> is_match wd (address k)"
  shows "worker_iteration wd c k =
           (if (c + 1) mod 2000 = 0 then ([Tick 2000], 0) else ([], c + 1))"
  using assms by (simp add: worker_iteration_def is_match_def Let_def BATCH_SIZE_def)

lemma worker_iteration_match:
  assumes "is_match wd (address k)"
  shows "worker_iteration wd c k =
           (if (c + 1) mod 2000 = 0
            then ([Found (address k) (pk k) (c + 1), Tick 2000], 0)
            else ([Found (address k) (pk k) (c + 1)], c + 1))"
  using assms by (simp add: worker_iteration_def is_match_def Let_def BATCH_SIZE_def)

text \<open>
  Without a match, from any counter below the batch size: the counter runs modulo 2000
  and each wrap posts one tick.
\<close>

lemma worker_loop_no_match:
  assumes "\<forall>k \<in> set ks. \<not> is_match wd (address k)" and "c < 2000"
  shows "worker_loop wd c ks =
           (replicate ((c + length ks) div 2000) (Tick 2000), (c + length ks) mod 2000)"
  using assms
proof (induction ks arbitrary: c)
  case Nil
  then show ?case by simp
next
  case (Cons k ks)
  have nm: "\<not> is_match wd (address k)" and rest: "\<forall>k \<in> set ks. \<not> is_match wd (address k)"
    using Cons.prems(1) by simp_all
  show ?case
  proof (cases "c = 1999")
    case True
    have "worker_loop wd 0 ks =
            (replicate ((0 + length ks) div 2000) (Tick 2000), (0 + length ks) mod 2000)"
      using Cons.IH [OF rest, of 0] by simp
    moreover have "(1999 + length (k # ks)) div 2000 = Suc (length ks div 2000)"
      and "(1999 + length (k # ks)) mod 2000 = length ks mod 2000"
      by simp_all
    ultimately show ?thesis
      using True by (simp add: worker_iteration_no_match [OF nm])
  next
    case False
    with Cons.prems(2) have lt: "c + 1 < 2000" by simp
    then have "(c + 1) mod 2000 \<noteq> 0" by simp
    then show ?thesis
      using Cons.IH [OF rest lt] by (simp add: worker_iteration_no_match [OF nm])
  qed
qed

lemma worker_iteration_reset:
  "Tick n \<in> set (fst (worker_iteration wd c k)) \<Longrightarrow> snd (worker_iteration wd c k) = 0 \<and> n = 2000"
  by (auto simp: worker_iteration_def Let_def BATCH_SIZE_def split: if_splits)

text \<open>
  C4. Over any number of iterations none of which matches, a worker (batch size 2000)
  posts exactly \<open>n div 2000\<close> ticks, each with count 2000, and nothing for the
  remainder \<open>n mod 2000\<close>, which is what the local counter holds; an iteration that
  posts a tick ends with the counter at zero.
\<close>

theorem ticks_without_match:
  assumes "\<forall>k \<in> set accounts. \<not> is_match wd (address k)"
  shows "worker_loop wd 0 accounts =
           (replicate (length accounts div 2000) (Tick 2000), length accounts mod 2000)
         \<and> worker wd accounts = replicate (length accounts div 2000) (Tick 2000)
         \<and> BATCH_SIZE = 2000
         \<and> (\<forall>c k n. Tick n \<in> set (fst (worker_iteration wd c k))
               \<longrightarrow> n = 2000 \<and> snd (worker_iteration wd c k) = 0)"
  using worker_loop_no_match [OF assms, of 0] worker_iteration_reset
  by (simp add: worker_def BATCH_SIZE_def)

theorem ticks_without_match_witness:
  "\<not> is_match wd_ab (address kp_miss)
   \<and> worker wd_ab (replicate 4001 kp_miss) = [Tick 2000, Tick 2000]
   \<and> snd (worker_loop wd_ab 0 (replicate 4001 kp_miss)) = 1"
proof -
  have h: "\<forall>k \<in> set (replicate 4001 kp_miss). \<not> is_match wd_ab (address k)"
    using kp_miss_no_match by simp
  have r: "replicate 2 (Tick 2000) = [Tick 2000, Tick 2000]"
    by (simp add: numeral_2_eq_2)
  show ?thesis
    using kp_miss_no_match ticks_without_match [OF h] r by simp
qed

lemma reported_iteration:
  "concat (map reported (fst (worker_iteration wd c k))) =
     (if is_match wd (address k) then [(address k, pk k)] else [])"
  by (simp add: worker_iteration_match worker_iteration_no_match)

lemma reported_loop:
  "concat (map reported (fst (worker_loop wd c ks))) =
     map (\<lambda>k. (address k, pk k)) (filter (\<lambda>k. is_match wd (address k)) ks)"
proof (induction ks arbitrary: c)
  case Nil
  then show ?case by simp
next
  case (Cons k ks)
  obtain m c1 where it: "worker_iteration wd c k = (m, c1)"
    by (cases "worker_iteration wd c k")
  obtain ms c2 where lp: "worker_loop wd c1 ks = (ms, c2)"
    by (cases "worker_loop wd c1 ks")
  have "concat (map reported m) = (if is_match wd (address k) then [(address k, pk k)] else [])"
    using reported_iteration [of wd c k] it by simp
  moreover have "concat (map reported ms) =
      map (\<lambda>k. (address k, pk k)) (filter (\<lambda>k. is_match wd (address k)) ks)"
    using Cons.IH [of c1] lp by simp
  ultimately show ?case
    using it lp by simp
qed

text \<open>
  C2 as stated fails: the worker does not stop after a match. Its loop has no exit and
  no branch on a match other than the post itself, so until the parent terminates it the
  next iterations run as before. Here the first provider result matches and the third
  matches again: two \<open>found\<close> messages.
\<close>

theorem two_found_messages:
  "worker wd_ab [kp_hit, kp_miss, kp_hit2] =
     [Found (address kp_hit) (pk kp_hit) 1, Found (address kp_hit2) (pk kp_hit2) 3]"
  using kp_hit_match kp_miss_no_match kp_hit2_match
  by (simp add: worker_def worker_iteration_match worker_iteration_no_match)

text \<open>
  A match on the iteration that completes a batch is followed at once by that batch's
  tick, in the same iteration.
\<close>

lemma found_then_tick:
  "worker wd_ab (replicate 1999 kp_miss @ [kp_hit]) =
     [Found (address kp_hit) (pk kp_hit) 2000, Tick 2000]"
proof -
  have h: "\<forall>k \<in> set (replicate 1999 kp_miss). \<not> is_match wd_ab (address k)"
    using kp_miss_no_match by simp
  have "worker_loop wd_ab 0 (replicate 1999 kp_miss) = ([], 1999)"
    using worker_loop_no_match [OF h, of 0] by simp
  then show ?thesis
    using kp_hit_match
    by (simp add: worker_def worker_loop_append worker_iteration_match)
qed

text \<open>
  C2, amended. Every matching iteration posts exactly one \<open>found\<close> message for its
  own keypair, with the local counter after the increment as attempts, before that
  iteration's tick if one is due; a match neither resets the counter nor stops the loop.
  So the \<open>found\<close> messages of a run are, in order, one per matching iteration (none is
  reported twice and none is dropped), and a run that goes on extends the messages
  already posted, from the counter reached.
\<close>

theorem worker_keeps_running:
  "concat (map reported (worker wd accounts)) =
     map (\<lambda>k. (address k, pk k)) (filter (\<lambda>k. is_match wd (address k)) accounts)
   \<and> (is_match wd (address k) \<longrightarrow>
        fst (worker_iteration wd c k) =
          Found (address k) (pk k) (c + 1) # (if (c + 1) mod 2000 = 0 then [Tick 2000] else [])
        \<and> snd (worker_iteration wd c k) = (if (c + 1) mod 2000 = 0 then 0 else c + 1))
   \<and> worker wd (accounts @ later) =
        worker wd accounts @ fst (worker_loop wd (snd (worker_loop wd 0 accounts)) later)"
proof -
  have "worker wd (accounts @ later) =
        worker wd accounts @ fst (worker_loop wd (snd (worker_loop wd 0 accounts)) later)"
    by (simp add: worker_def worker_loop_append split: prod.splits)
  moreover have "is_match wd (address k) \<longrightarrow>
        fst (worker_iteration wd c k) =
          Found (address k) (pk k) (c + 1) # (if (c + 1) mod 2000 = 0 then [Tick 2000] else [])
        \<and> snd (worker_iteration wd c k) = (if (c + 1) mod 2000 = 0 then 0 else c + 1)"
    by (simp add: worker_iteration_match)
  ultimately show ?thesis
    by (simp add: worker_def reported_loop)
qed

theorem worker_keeps_running_witness:
  "is_match wd_ab (address kp_hit)
   \<and> fst (worker_iteration wd_ab 0 kp_hit) = [Found (address kp_hit) (pk kp_hit) 1]
   \<and> snd (worker_iteration wd_ab 0 kp_hit) = 1
   \<and> concat (map reported (worker wd_ab [kp_hit, kp_miss, kp_hit2])) =
        [(address kp_hit, pk kp_hit), (address kp_hit2, pk kp_hit2)]"
  using kp_hit_match kp_miss_no_match kp_hit2_match
    worker_keeps_running [of wd_ab "[kp_hit, kp_miss, kp_hit2]" kp_hit 0 "[]"]
  by simp

text \<open>
  C10. The \<open>found\<close> message of a matching iteration carries \<open>account.address\<close> and
  \<open>pk\<close> as the provider returned them in that iteration, also when the comparison was
  made on the lower-cased copy; and every \<open>found\<close> message of a run carries the
  address and key of one provider result of the run, one that matches.
\<close>

theorem found_carries_provider_pair:
  "(is_match wd (address account) \<longrightarrow>
      (\<exists>rest. fst (worker_iteration wd c account) =
                 Found (address account) (pk account) (c + 1) # rest))
   \<and> (\<forall>m \<in> set (worker wd accounts). \<forall>a k n. m = Found a k n \<longrightarrow>
         (\<exists>account \<in> set accounts.
            a = address account \<and> k = pk account \<and> is_match wd (address account)))"
proof -
  have "\<exists>account \<in> set accounts.
          a = address account \<and> k = pk account \<and> is_match wd (address account)"
    if "Found a k n \<in> set (worker wd accounts)" for a k n
  proof -
    from that have "(a, k) \<in> set (concat (map reported (worker wd accounts)))"
      by force
    then have "(a, k) \<in> set (map (\<lambda>k. (address k, pk k))
                               (filter (\<lambda>k. is_match wd (address k)) accounts))"
      by (simp only: worker_def reported_loop)
    then obtain account where "account \<in> set accounts" "is_match wd (address account)"
      "(a, k) = (address account, pk account)"
      by auto
    then show ?thesis
      by auto
  qed
  then have "\<forall>m \<in> set (worker wd accounts). \<forall>a k n. m = Found a k n \<longrightarrow>
         (\<exists>account \<in> set accounts.
            a = address account \<and> k = pk account \<and> is_match wd (address account))"
    by blast
  then show ?thesis
    by (simp add: worker_iteration_match)
qed

theorem found_carries_provider_pair_witness:
  "isCaseSensitive wd_ab = False
   \<and> is_match wd_ab (address kp_hit)
   \<and> address kp_hit = ''0xAb5801a7D398351b8bE11C439e05C5B3259aeC9B''
   \<and> addr_of wd_ab (address kp_hit) = ''0xab5801a7d398351b8be11c439e05c5b3259aec9b''
   \<and> worker wd_ab [kp_miss, kp_hit] = [Found (address kp_hit) (pk kp_hit) 2]
   \<and> fst (worker_iteration wd_ab 1 kp_hit) = [Found (address kp_hit) (pk kp_hit) 2]"
proof -
  have run: "worker wd_ab [kp_miss, kp_hit] = [Found (address kp_hit) (pk kp_hit) 2]"
    using kp_hit_match kp_miss_no_match
    by (simp add: worker_def worker_iteration_match worker_iteration_no_match)
  have low: "addr_of wd_ab (address kp_hit) = ''0xab5801a7d398351b8be11c439e05c5b3259aec9b''"
    by code_simp
  have orig: "address kp_hit = ''0xAb5801a7D398351b8bE11C439e05C5B3259aeC9B''"
    by (simp add: kp_hit_def)
  have one: "fst (worker_iteration wd_ab 1 kp_hit) = [Found (address kp_hit) (pk kp_hit) 2]"
    using kp_hit_match by (simp add: worker_iteration_match)
  from found_carries_provider_pair [of wd_ab kp_hit 1 "[kp_miss, kp_hit]"] kp_hit_match
  obtain rest where
    hd: "fst (worker_iteration wd_ab 1 kp_hit) = Found (address kp_hit) (pk kp_hit) (1 + 1) # rest"
    by blast
  with one have "rest = []"
    by simp
  with hd have first: "fst (worker_iteration wd_ab 1 kp_hit) = [Found (address kp_hit) (pk kp_hit) 2]"
    by simp
  have cs: "isCaseSensitive wd_ab = False"
    by (simp add: wd_ab_def)
  show ?thesis
    by (intro conjI cs kp_hit_match orig low run first)
qed

section \<open>Pattern construction\<close>

lemma hex_char_lower: "is_hex_char c \<Longrightarrow> is_hex_char (toLowerChar c)"
proof -
  assume "is_hex_char c"
  then have "c \<in> set ''0123456789abcdefABCDEF''"
    by (simp only: is_hex_char_def)
  moreover have "\<forall>d \<in> set ''0123456789abcdefABCDEF''. is_hex_char (toLowerChar d)"
    by code_simp
  ultimately show ?thesis
    by blast
qed

lemma hex_chars_lower: "list_all is_hex_char s \<Longrightarrow> list_all is_hex_char (toLowerCase s)"
  by (induction s) (simp_all add: toLowerCase_def hex_char_lower)

lemma x_not_hex: "\<not> is_hex_char CHR ''x''"
  by code_simp

lemma hex_not_0x: "list_all is_hex_char s \<Longrightarrow> \<not> startsWith s ''0x''"
proof
  assume hex: "list_all is_hex_char s" and sw: "startsWith s ''0x''"
  from sw have t: "take (length ''0x'') s = ''0x''"
    by (simp add: startsWith_def split: if_splits)
  have "CHR ''x'' \<in> set (take (length ''0x'') s)"
    unfolding t by simp
  then have "CHR ''x'' \<in> set s"
    by (rule in_set_takeD)
  with hex have "is_hex_char CHR ''x''"
    by (simp add: list_all_iff)
  with x_not_hex show False
    by simp
qed

text \<open>
  On every accepted pattern the stored prefix is the case-folded option itself: the
  hexadecimal test has already refused any prefix that starts with \<open>0x\<close>, so the
  branch that removes it is never taken.
\<close>

lemma build_never_strips:
  assumes "build cfg = Inr spec"
  shows "cleanPrefix spec =
           (if caseSensitive cfg then prefix_opt cfg else toLowerCase (prefix_opt cfg))"
proof -
  from assms have hex: "list_all is_hex_char (prefix_opt cfg @ suffix_opt cfg)"
    by (auto simp: build_def Let_def hex_test_def split: if_splits)
  then have p: "list_all is_hex_char (prefix_opt cfg)" by simp
  have "\<not> startsWith (prefix_opt cfg) ''0x''"
    and "\<not> startsWith (toLowerCase (prefix_opt cfg)) ''0x''"
    using p hex_not_0x hex_chars_lower by blast+
  with assms show ?thesis
    by (auto simp: build_def Let_def split: if_splits)
qed

text \<open>
  C5. Pattern construction is to accept a prefix given with a leading \<open>0x\<close> and treat
  it as the prefix without it. The source has the removal (\<open>cleanPrefix\<close>), but after
  the hexadecimal test on \<open>prefix + suffix\<close>, which \<open>x\<close> fails: \<open>-p 0xcafe\<close> ends
  with the invalid-hex error, while \<open>-p cafe\<close> is accepted with prefix \<open>cafe\<close>.
\<close>

theorem prefix_0x_rejected:
  "build cfg_0xcafe = Inl InvalidHex
   \<and> main_thread cfg_0xcafe = ErrorExit InvalidHex
   \<and> build cfg_cafe =
       Inr \<lparr>cleanPrefix = ''cafe'', targetSuffix = [], totalHexChars = 4,
            difficulty = Finite 65536\<rparr>"
proof -
  have a: "\<not> hex_test ''0xcafe''" and b: "hex_test ''cafe''"
    and c: "toLowerCase ''cafe'' = ''cafe''" and d: "\<not> startsWith ''cafe'' ''0x''"
    by code_simp+
  have "build cfg_0xcafe = Inl InvalidHex"
    using a by (simp add: build_def cfg_0xcafe_def)
  moreover have "build cfg_cafe =
       Inr \<lparr>cleanPrefix = ''cafe'', targetSuffix = [], totalHexChars = 4,
            difficulty = Finite 65536\<rparr>"
    using b c d by (simp add: build_def cfg_cafe_def Math_pow16_def toLowerCase_def)
  ultimately show ?thesis
    by (simp add: main_thread_def cfg_0xcafe_def)
qed

text \<open>
  C8. Whenever the concatenation of the prefix and suffix options contains a character
  outside \<open>[0-9a-fA-F]\<close>, pattern construction fails with the invalid-hex error, and
  the main thread ends (with that error, unless the help flag ended it before the pattern
  was looked at) without having started a worker.
\<close>

theorem invalid_hex_rejected:
  assumes "\<not> list_all is_hex_char (prefix_opt cfg @ suffix_opt cfg)"
  shows "build cfg = Inl InvalidHex
         \<and> (if showHelp cfg then main_thread cfg = HelpExit
             else main_thread cfg = ErrorExit InvalidHex)
         \<and> workers_started (main_thread cfg) = []"
proof -
  from assms have ne: "prefix_opt cfg @ suffix_opt cfg \<noteq> []"
    by auto
  with assms have "build cfg = Inl InvalidHex"
    by (simp add: build_def Let_def hex_test_def)
  then show ?thesis
    by (simp add: main_thread_def)
qed

theorem invalid_hex_rejected_witness:
  "\<not> list_all is_hex_char (''ab'' @ ''9g'')
   \<and> build cfg_bad_suffix = Inl InvalidHex
   \<and> main_thread cfg_bad_suffix = ErrorExit InvalidHex
   \<and> workers_started (main_thread cfg_bad_suffix) = []"
proof -
  have g: "\<not> list_all is_hex_char (''ab'' @ ''9g'')"
    by code_simp
  then have h: "\<not> list_all is_hex_char (prefix_opt cfg_bad_suffix @ suffix_opt cfg_bad_suffix)"
    by (simp add: cfg_bad_suffix_def)
  have "\<not> showHelp cfg_bad_suffix"
    by (simp add: cfg_bad_suffix_def)
  with g invalid_hex_rejected [OF h] show ?thesis
    by simp
qed

text \<open>
  C9. When the prefix and the suffix options are both empty, pattern construction fails
  with the empty-pattern error, not the invalid-hex one, and the main thread ends (with
  that error, unless the help flag ended it first) without having started a worker.
\<close>

theorem empty_pattern_rejected:
  assumes "prefix_opt cfg = []" and "suffix_opt cfg = []"
  shows "build cfg = Inl Empty
         \<and> build cfg \<noteq> Inl InvalidHex
         \<and> (if showHelp cfg then main_thread cfg = HelpExit
             else main_thread cfg = ErrorExit Empty)
         \<and> workers_started (main_thread cfg) = []"
proof -
  from assms have "build cfg = Inl Empty"
    by (simp add: build_def)
  then show ?thesis
    by (simp add: main_thread_def)
qed

theorem empty_pattern_rejected_witness:
  "prefix_opt cfg_empty = [] \<and> suffix_opt cfg_empty = []
   \<and> build cfg_empty = Inl Empty
   \<and> main_thread cfg_empty = ErrorExit Empty
   \<and> workers_started (main_thread cfg_empty) = []"
proof -
  have p: "prefix_opt cfg_empty = []" and s: "suffix_opt cfg_empty = []"
    and h: "\<not> showHelp cfg_empty"
    by (simp_all add: cfg_empty_def)
  with empty_pattern_rejected [OF p s] show ?thesis
    by simp
qed

section \<open>The coordinator\<close>

lemma on_tick_no_success: "\<forall>out \<in> set (fst (on_tick env st now count)). \<not> is_Success out"
  by (simp add: on_tick_def Let_def)

lemma coordinator_ticks_only:
  assumes "\<forall>e \<in> set pre. \<not> is_Found (snd e)"
  shows "\<exists>outs st1. coordinator env st pre = (outs, Waiting st1)
           \<and> (\<forall>out \<in> set outs. \<not> is_Success out)
           \<and> (\<forall>rest. coordinator env st (pre @ rest) =
                 (outs @ fst (coordinator env st1 rest), snd (coordinator env st1 rest)))"
  using assms
proof (induction pre arbitrary: st)
  case Nil
  then show ?case by simp
next
  case (Cons e pre)
  obtain now m where e: "e = (now, m)"
    by (cases e)
  from Cons.prems e obtain count where m: "m = Tick count"
    by (cases m) auto
  obtain out st0 where t: "on_tick env st now count = (out, st0)"
    by (cases "on_tick env st now count")
  from Cons.prems have "\<forall>e \<in> set pre. \<not> is_Found (snd e)"
    by simp
  from Cons.IH [OF this, of st0] obtain outs st1 where
    run: "coordinator env st0 pre = (outs, Waiting st1)"
    and quiet: "\<forall>out \<in> set outs. \<not> is_Success out"
    and ext: "\<forall>rest. coordinator env st0 (pre @ rest) =
                 (outs @ fst (coordinator env st1 rest), snd (coordinator env st1 rest))"
    by blast
  have "\<forall>o' \<in> set out. \<not> is_Success o'"
    using on_tick_no_success [of env st now count] t by simp
  with quiet have "\<forall>o' \<in> set (out @ outs). \<not> is_Success o'"
    by auto
  moreover have "coordinator env st (e # pre) = (out @ outs, Waiting st1)"
    using e m t run by simp
  moreover have "\<forall>rest. coordinator env st ((e # pre) @ rest) =
                 ((out @ outs) @ fst (coordinator env st1 rest), snd (coordinator env st1 rest))"
    using e m t ext by simp
  ultimately show ?case
    by blast
qed

lemma at_most_one_success:
  "length (filter is_Success (fst (coordinator env st events))) \<le> 1"
proof (induction events arbitrary: st)
  case Nil
  then show ?case by simp
next
  case (Cons e events)
  obtain now m where e: "e = (now, m)"
    by (cases e)
  show ?case
  proof (cases m)
    case (Found a k attempts)
    with e show ?thesis
      by (simp add: on_found_def)
  next
    case (Tick count)
    obtain out st1 where t: "on_tick env st now count = (out, st1)"
      by (cases "on_tick env st now count")
    have "filter is_Success out = []"
      using on_tick_no_success [of env st now count] t by (simp add: filter_empty_conv)
    moreover obtain outs fin where "coordinator env st1 events = (outs, fin)"
      by (cases "coordinator env st1 events")
    ultimately show ?thesis
      using e Tick t Cons.IH [of st1] by simp
  qed
qed

text \<open>
  C1. In every run the coordinator accepts at most one match. After any ticks, the first
  \<open>found\<close> message handled produces the one success output, for that message's
  address and key, and ends the run; whatever is delivered after it, further
  \<open>found\<close> messages included, changes nothing. No sequence of messages produces two
  success outputs.
\<close>

theorem first_found_wins:
  assumes "\<forall>e \<in> set pre. \<not> is_Found (snd e)"
  shows "(\<exists>outs st1. coordinator env st pre = (outs, Waiting st1)
            \<and> (\<forall>out \<in> set outs. \<not> is_Success out)
            \<and> coordinator env st (pre @ (now, Found a k n) # rest) =
                 (outs @ [on_found env st1 now a k n], Exited))
         \<and> filter is_Success (fst (coordinator env st (pre @ (now, Found a k n) # rest))) =
             filter is_Success (fst (coordinator env st (pre @ [(now, Found a k n)])))
         \<and> length (filter is_Success (fst (coordinator env st events))) \<le> 1"
proof -
  from coordinator_ticks_only [OF assms, of env st] obtain outs st1 where
    run: "coordinator env st pre = (outs, Waiting st1)"
    and quiet: "\<forall>out \<in> set outs. \<not> is_Success out"
    and ext: "\<forall>rest. coordinator env st (pre @ rest) =
                 (outs @ fst (coordinator env st1 rest), snd (coordinator env st1 rest))"
    by blast
  have "coordinator env st (pre @ (now, Found a k n) # rest) =
          (outs @ [on_found env st1 now a k n], Exited)" for rest
    using ext by simp
  then show ?thesis
    using run quiet at_most_one_success by simp
qed

theorem first_found_wins_witness:
  "filter is_Success
        (fst (coordinator env_demo initial_state
               ([(1700000000900, Tick 2000)]
                 @ (1700000001500, Found (address kp_hit) (pk kp_hit) 37)
                 # [(1700000001501, Found (address kp_hit2) (pk kp_hit2) 512),
                    (1700000001502, Tick 2000)]))) =
      [Success (address kp_hit) (pk kp_hit) (Finite 1.5) 2037]
   \<and> snd (coordinator env_demo initial_state
               ([(1700000000900, Tick 2000)]
                 @ (1700000001500, Found (address kp_hit) (pk kp_hit) 37)
                 # [(1700000001501, Found (address kp_hit2) (pk kp_hit2) 512),
                    (1700000001502, Tick 2000)])) = Exited"
proof -
  have h: "\<forall>e \<in> set [(1700000000900::int, Tick 2000)]. \<not> is_Found (snd e)"
    by simp
  show ?thesis
    using first_found_wins [OF h, of env_demo initial_state 1700000001500
        "address kp_hit" "pk kp_hit" 37
        "[(1700000001501, Found (address kp_hit2) (pk kp_hit2) 512), (1700000001502, Tick 2000)]"
        "[]"]
    by (simp add: on_tick_def on_found_def env_demo_def initial_state_def Let_def)
qed

section \<open>Statistics\<close>

text \<open>
  C6 as stated fails: the source divides without testing \<open>elapsed\<close>. A tick handled in
  the millisecond of \<open>startTime\<close> has \<open>elapsed = 0\<close>, and the speed that is rendered
  is the quotient \<open>2000 / 0\<close>, which is \<open>Infinity\<close>.
\<close>

theorem speed_infinite_at_zero_elapsed:
  "speed_of 2000 1700000000000 1700000000000 = PosInfinity
   \<and> fst (on_tick env_demo initial_state 1700000000000 2000) =
       [Progress PosInfinity 2000 (probability 2000 (Math_pow16 2))]"
  by (simp add: speed_of_def on_tick_def env_demo_def initial_state_def Let_def)

text \<open>
  C6, amended. The speed is the plain quotient of the total by the elapsed seconds, with
  no guard: for a nonzero elapsed time it is \<open>totalCount / ((now - startTime) / 1000)\<close>,
  and for \<open>elapsed = 0\<close> it is what the division gives, \<open>Infinity\<close> for a positive
  total (\<open>NaN\<close> for a total of zero). That value is the speed of the progress line
  whenever one is rendered.
\<close>

theorem speed_is_quotient:
  "speed_of tc now start =
     (if now = start then (if tc = 0 then NaN else PosInfinity)
      else Finite (real tc / (real_of_int (now - start) / 1000)))
   \<and> (now - lastLog st > 100 \<longrightarrow>
        fst (on_tick env st now count) =
          [Progress (speed_of (totalCount st + count) now (startTime env))
             (totalCount st + count)
             (probability (totalCount st + count) (env_difficulty env))])"
  by (simp add: speed_of_def on_tick_def Let_def)

theorem speed_is_quotient_witness:
  "speed_of 3000 1700000001500 1700000000000 = Finite 2000
   \<and> speed_of 3000 1700000000000 1700000000000 = PosInfinity
   \<and> fst (on_tick env_demo initial_state 1700000001500 3000) =
       [Progress (Finite 2000) 3000 (probability 3000 (Math_pow16 2))]"
  using speed_is_quotient [of 3000 1700000001500 1700000000000 initial_state env_demo 3000]
    speed_is_quotient [of 3000 1700000000000 1700000000000 initial_state env_demo 3000]
  by (simp add: env_demo_def initial_state_def)

lemma Math_pow16_cases:
  "Math_pow16 n = PosInfinity \<or> (\<exists>r. 0 < r \<and> Math_pow16 n = Finite r)"
  by (simp add: Math_pow16_def)

lemma probability_finite:
  assumes "0 < r"
  shows "probability t (Finite r) = Finite (min (1 - exp (- real t / r)) 0.9999)"
  using assms by (simp add: probability_def Let_def min_def)

lemma probability_infinite: "probability t PosInfinity = Finite 0"
  by (simp add: probability_def Let_def)

lemma clamped_mono:
  assumes "0 < r" and "t1 \<le> t2"
  shows "min (1 - exp (- real t1 / r)) c \<le> min (1 - exp (- real t2 / r)) (c::real)"
proof -
  from assms have "real t1 / r \<le> real t2 / r"
    by (simp add: divide_right_mono)
  then have "1 - exp (- real t1 / r) \<le> 1 - exp (- real t2 / r)"
    by simp
  then show ?thesis
    by (rule min.mono) simp
qed

text \<open>
  The value \<open>prob\<close>. For a fixed difficulty (a positive finite one, or the \<open>Infinity\<close> of an
  overflowing power, which are the values \<open>Math.pow(16, n)\<close> takes), the probability is
  \<open>1 - exp(-totalCount / difficulty)\<close> clamped to at most 0.9999; it does not decrease
  when the total grows, and it is never 1.
\<close>

theorem probability_clamped_monotone:
  assumes "t1 \<le> t2" and "d = PosInfinity \<or> (\<exists>r. 0 < r \<and> d = Finite r)"
  shows "(\<exists>p1 p2. probability t1 d = Finite p1 \<and> probability t2 d = Finite p2
            \<and> p1 \<le> p2 \<and> p2 \<le> 0.9999 \<and> p2 \<noteq> 1)
         \<and> (\<forall>r. 0 < r \<longrightarrow>
               probability t1 (Finite r) = Finite (min (1 - exp (- real t1 / r)) 0.9999))
         \<and> probability t1 PosInfinity = Finite (1 - exp 0)"
proof -
  have "\<exists>p1 p2. probability t1 d = Finite p1 \<and> probability t2 d = Finite p2
            \<and> p1 \<le> p2 \<and> p2 \<le> 0.9999 \<and> p2 \<noteq> 1"
  proof (cases "d = PosInfinity")
    case True
    then show ?thesis
      by (simp add: probability_infinite)
  next
    case False
    with assms(2) obtain r where r: "0 < r" "d = Finite r"
      by blast
    define p1 where "p1 = min (1 - exp (- real t1 / r)) (0.9999::real)"
    define p2 where "p2 = min (1 - exp (- real t2 / r)) (0.9999::real)"
    have "p1 \<le> p2"
      unfolding p1_def p2_def using r(1) assms(1) by (rule clamped_mono)
    moreover have le: "p2 \<le> 0.9999"
      unfolding p2_def by (rule min.cobounded2)
    moreover have "p2 \<noteq> 1"
    proof
      assume "p2 = 1"
      with le have "(1::real) \<le> 0.9999" by simp
      then show False by simp
    qed
    moreover have "probability t1 d = Finite p1" and "probability t2 d = Finite p2"
      unfolding p1_def p2_def using r by (simp_all add: probability_finite)
    ultimately show ?thesis
      by blast
  qed
  moreover have "\<forall>r. 0 < r \<longrightarrow>
      probability t1 (Finite r) = Finite (min (1 - exp (- real t1 / r)) 0.9999)"
    using probability_finite by blast
  moreover have "probability t1 PosInfinity = Finite (1 - exp 0)"
    by (simp add: probability_infinite)
  ultimately show ?thesis
    by blast
qed

theorem probability_clamped_monotone_witness:
  "(2000::nat) \<le> 4000
   \<and> Math_pow16 4 = Finite 65536
   \<and> (\<exists>p1 p2. probability 2000 (Math_pow16 4) = Finite p1
         \<and> probability 4000 (Math_pow16 4) = Finite p2
         \<and> p1 \<le> p2 \<and> p2 \<le> 0.9999 \<and> p2 \<noteq> 1)"
proof -
  have le: "(2000::nat) \<le> 4000"
    by simp
  have d: "Math_pow16 4 = Finite 65536"
    by (simp add: Math_pow16_def)
  from probability_clamped_monotone [OF le Math_pow16_cases, of 4]
  have ex: "\<exists>p1 p2. probability 2000 (Math_pow16 4) = Finite p1
         \<and> probability 4000 (Math_pow16 4) = Finite p2
         \<and> p1 \<le> p2 \<and> p2 \<le> 0.9999 \<and> p2 \<noteq> 1"
    by (rule conjunct1)
  show ?thesis
    by (intro conjI le d ex)
qed

text \<open>
  The string shown for it. One tick of 2000 on a two-digit pattern (difficulty 256) gives
  \<open>prob = 1 - exp(-2000 / 256) = 1 - exp(-125 / 16)\<close>, about 0.9996: above 0.999 and
  below the clamp.
\<close>

lemma exp_125_16_lower: "1000 < exp (125 / 16 :: real)"
proof -
  have "1 + (125 / 128) + (125 / 128)\<^sup>2 / 2 \<le> exp (125 / 128 :: real)"
    by (rule exp_lower_Taylor_quadratic) simp
  then have "(1 + (125 / 128) + (125 / 128)\<^sup>2 / 2) ^ 8 \<le> exp (125 / 128 :: real) ^ 8"
    by (rule power_mono) simp
  moreover have "(1000 :: real) < (1 + (125 / 128) + (125 / 128)\<^sup>2 / 2) ^ 8"
    by (simp add: power2_eq_square power_divide)
  moreover have "exp (125 / 128 :: real) ^ 8 = exp (125 / 16)"
    using exp_of_nat_mult [of 8 "125 / 128 :: real"] by simp
  ultimately show ?thesis
    by linarith
qed

lemma exp_125_16_upper: "exp (125 / 16 :: real) < 10000"
proof -
  have "exp (125 / 16 :: real) \<le> exp 8"
    by simp
  also have "exp (8 :: real) = exp 1 ^ 8"
    using exp_of_nat_mult [of 8 "1 :: real"] by simp
  also have "\<dots> \<le> 3 ^ 8"
    by (rule power_mono) (simp_all add: exp_le)
  also have "\<dots> < (10000 :: real)"
    by simp
  finally show ?thesis .
qed

lemma prob_2000_256_lower: "0.999 < 1 - exp (- (125 / 16) :: real)"
proof -
  define x where "x = exp (- (125 / 16) :: real)"
  have "inverse (exp (125 / 16 :: real)) < inverse 1000"
    by (rule less_imp_inverse_less [OF exp_125_16_lower]) simp
  then have "x < 1 / 1000"
    by (simp add: x_def exp_minus inverse_eq_divide)
  then have "0.999 < 1 - x"
    by simp
  then show ?thesis
    by (simp only: x_def)
qed

lemma prob_2000_256_upper: "1 - exp (- (125 / 16) :: real) < 0.9999"
proof -
  define x where "x = exp (- (125 / 16) :: real)"
  have "inverse (10000 :: real) < inverse (exp (125 / 16))"
    by (rule less_imp_inverse_less [OF exp_125_16_upper]) simp
  then have "1 / 10000 < x"
    by (simp add: x_def exp_minus inverse_eq_divide)
  then have "1 - x < 0.9999"
    by simp
  then show ?thesis
    by (simp only: x_def)
qed

lemma probability_2000_256:
  "probability 2000 (Math_pow16 2) = Finite (1 - exp (- (125 / 16)))"
proof -
  have "probability 2000 (Finite 256) = Finite (min (1 - exp (- real 2000 / 256)) 0.9999)"
    by (rule probability_finite) simp
  moreover have "min (1 - exp (- (125 / 16) :: real)) 0.9999 = 1 - exp (- (125 / 16))"
    using prob_2000_256_upper by (simp add: min_def)
  ultimately show ?thesis
    by (simp add: Math_pow16_def)
qed

lemma probStr_label:
  assumes "0 < r" and "0.999 < 1 - exp (- real t / r)"
  shows "probStr toFixed (probability t (Finite r)) = ''>99.99%''"
proof -
  have "probability t (Finite r) = Finite (min (1 - exp (- real t / r)) 0.9999)"
    using assms(1) by (rule probability_finite)
  moreover have "(0.999 :: real) < min (1 - exp (- real t / r)) 0.9999"
    using assms(2) by (simp add: min_def)
  ultimately show ?thesis
    by (simp add: probStr_def)
qed

text \<open>
  C7. The displayed probability is to be \<open>1 - exp(-totalCount / difficulty)\<close> clamped
  to at most 0.9999. The value \<open>prob\<close> is, but the text displayed for it is not: the
  source compares with 0.999, not 0.9999, before it prints the label \<open>>99.99%\<close>. After
  the first tick on a two-digit pattern the handler renders a progress line for
  \<open>prob = 1 - exp(-125 / 16)\<close>, which lies strictly between 0.999 and 0.9999, and the
  line reads \<open>>99.99%\<close>, whatever \<open>toFixed\<close> does.
\<close>

theorem label_shown_below_9999:
  "fst (on_tick env_demo initial_state 1700000001000 2000) =
     [Progress (Finite 2000) 2000 (probability 2000 (Math_pow16 2))]
   \<and> probability 2000 (Math_pow16 2) = Finite (1 - exp (- (125 / 16)))
   \<and> 0.999 < 1 - exp (- (125 / 16) :: real)
   \<and> 1 - exp (- (125 / 16) :: real) < 0.9999
   \<and> probStr toFixed (probability 2000 (Math_pow16 2)) = ''>99.99%''"
proof -
  have tick: "fst (on_tick env_demo initial_state 1700000001000 2000) =
     [Progress (Finite 2000) 2000 (probability 2000 (Math_pow16 2))]"
    by (simp add: on_tick_def speed_of_def env_demo_def initial_state_def Let_def)
  have "num_gt (Finite (1 - exp (- (125 / 16)))) (Finite 0.999)"
    using prob_2000_256_lower by (simp only: num_gt.simps)
  then have label: "probStr toFixed (probability 2000 (Math_pow16 2)) = ''>99.99%''"
    by (simp only: probability_2000_256 probStr_def if_True)
  show ?thesis
    by (intro conjI tick probability_2000_256 prob_2000_256_lower prob_2000_256_upper label)
qed

end
